theory Spec2Isabelle
  imports Main
begin

section \<open>Python values, strings and errors\<close>

text \<open>
  The simulator is dynamically typed. Two kinds of value occur in a packet destination and
  in the cost column of a routing table: an integer (\<open>0\<close> in \<open>send_routes\<close>, link costs) and a
  string (a decoded destination, the marker \<open>'~'\<close>). A Python \<open>str\<close> is modelled as a
  \<open>string\<close>, one \<open>char\<close> per code point below 256.
\<close>

datatype pyval = PInt int | PStr string

text \<open>
  The exceptions the modelled code can raise. \<open>raise('...')\<close> with a string operand is
  itself a \<open>TypeError\<close> in Python 3; in \<open>to_byte_S\<close> the operand is built with
  \<open>'%s' % (self, ...)\<close>, which calls \<open>str(self)\<close>, that is \<open>to_byte_S\<close> again, so the
  interpreter ends in a \<open>RecursionError\<close> before the \<open>raise\<close> is reached.
\<close>

datatype pyerror = TypeError | RecursionError | IndexError | ValueError | AttributeError
  | QueueFull | PyException

subsection \<open>\<open>str\<close> of an integer\<close>

definition digit_char :: "nat \<Rightarrow> char" where
  "digit_char d = ''0123456789'' ! d"

fun digits :: "nat \<Rightarrow> string" where
  "digits n = (if n < 10 then [digit_char n] else digits (n div 10) @ [digit_char (n mod 10)])"

declare digits.simps [simp del]

definition str_int :: "int \<Rightarrow> string" where
  "str_int i = (if i < 0 then CHR ''-'' # digits (nat (- i)) else digits (nat i))"

text \<open>\<open>str(v)\<close> for the two kinds of value: a string is its own \<open>str\<close>.\<close>

fun py_str :: "pyval \<Rightarrow> string" where
  "py_str (PInt i) = str_int i"
| "py_str (PStr s) = s"

subsection \<open>\<open>str.zfill\<close> and \<open>str.strip\<close>\<close>

text \<open>
  \<open>s.zfill(w)\<close> pads with \<open>'0'\<close> on the left up to width \<open>w\<close>; a leading sign stays in
  front of the padding.
\<close>

definition zfill :: "nat \<Rightarrow> string \<Rightarrow> string" where
  "zfill w s =
     (if w \<le> length s then s
      else (case s of
              c # cs \<Rightarrow>
                (if c = CHR ''+'' \<or> c = CHR ''-''
                 then c # replicate (w - length s) CHR ''0'' @ cs
                 else replicate (w - length s) CHR ''0'' @ s)
            | [] \<Rightarrow> replicate w CHR ''0''))"

text \<open>\<open>s.strip('0')\<close> removes every \<open>'0'\<close> at the left end and at the right end.\<close>

definition strip0 :: "string \<Rightarrow> string" where
  "strip0 s = rev (dropWhile (\<lambda>c. c = CHR ''0'') (rev (dropWhile (\<lambda>c. c = CHR ''0'') s)))"

section \<open>NetworkPacket\<close>

record NetworkPacket =
  dst :: pyval
  prot_S :: string
  data_S :: string

definition dst_S_length :: nat where
  "dst_S_length = 5"

definition prot_S_length :: nat where
  "prot_S_length = 1"

text \<open>\<open>to_byte_S\<close>: the destination padded to five characters, the protocol digit, the payload.\<close>

definition to_byte_S :: "NetworkPacket \<Rightarrow> pyerror + string" where
  "to_byte_S p =
     (let byte_S = zfill dst_S_length (py_str (dst p)) in
      if prot_S p = ''data'' then Inr (byte_S @ ''1'' @ data_S p)
      else if prot_S p = ''control'' then Inr (byte_S @ ''2'' @ data_S p)
      else Inl RecursionError)"

text \<open>\<open>__str__\<close>: \<open>str(p)\<close> is \<open>p.to_byte_S()\<close>, with its exception.\<close>

definition str_NetworkPacket :: "NetworkPacket \<Rightarrow> pyerror + string" where
  "str_NetworkPacket p = to_byte_S p"

text \<open>
  \<open>from_byte_S\<close>: slices never fail in Python, so a short input gives an empty protocol
  field and ends in the \<open>raise\<close> of the last branch. The destination of the result is
  always a string.
\<close>

definition from_byte_S :: "string \<Rightarrow> pyerror + NetworkPacket" where
  "from_byte_S byte_S =
     (let d = strip0 (take dst_S_length byte_S);
          pr = take prot_S_length (drop dst_S_length byte_S);
          payload = drop (dst_S_length + prot_S_length) byte_S
      in if pr = ''1'' then Inr \<lparr>dst = PStr d, prot_S = ''data'', data_S = payload\<rparr>
         else if pr = ''2'' then Inr \<lparr>dst = PStr d, prot_S = ''control'', data_S = payload\<rparr>
         else Inl TypeError)"

text \<open>Encoding followed by decoding, the composition the round-trip contract is about.\<close>

definition decode_encode :: "NetworkPacket \<Rightarrow> pyerror + NetworkPacket" where
  "decode_encode p = (case to_byte_S p of Inl e \<Rightarrow> Inl e | Inr b \<Rightarrow> from_byte_S b)"

section \<open>Interface\<close>

text \<open>
  An interface is a pair of \<open>queue.Queue(maxsize)\<close> objects holding encoded packets. A
  queue with \<open>maxsize \<le> 0\<close> is unbounded.
\<close>

record Interface =
  in_queue :: "string list"
  out_queue :: "string list"
  maxsize :: int

definition Interface_init :: "int \<Rightarrow> Interface" where
  "Interface_init m = \<lparr>in_queue = [], out_queue = [], maxsize = m\<rparr>"

definition queue_full :: "int \<Rightarrow> string list \<Rightarrow> bool" where
  "queue_full m q \<longleftrightarrow> 0 < m \<and> m \<le> int (length q)"

text \<open>\<open>get\<close>: a non-blocking dequeue; \<open>queue.Empty\<close> is caught and becomes \<open>None\<close>.\<close>

definition get :: "Interface \<Rightarrow> string \<Rightarrow> string option \<times> Interface" where
  "get f in_or_out =
     (if in_or_out = ''in''
      then (case in_queue f of [] \<Rightarrow> (None, f) | x # xs \<Rightarrow> (Some x, f\<lparr>in_queue := xs\<rparr>))
      else (case out_queue f of [] \<Rightarrow> (None, f) | x # xs \<Rightarrow> (Some x, f\<lparr>out_queue := xs\<rparr>)))"

text \<open>
  \<open>put\<close>: on a full queue a non-blocking put raises \<open>queue.Full\<close>, and a blocking put
  (no timeout) waits until another thread takes an element.
\<close>

datatype put_result = Put_ok Interface | Put_full | Put_wait

definition put :: "Interface \<Rightarrow> string \<Rightarrow> string \<Rightarrow> bool \<Rightarrow> put_result" where
  "put f pkt in_or_out block =
     (if in_or_out = ''out''
      then (if queue_full (maxsize f) (out_queue f) then (if block then Put_wait else Put_full)
            else Put_ok (f\<lparr>out_queue := out_queue f @ [pkt]\<rparr>))
      else (if queue_full (maxsize f) (in_queue f) then (if block then Put_wait else Put_full)
            else Put_ok (f\<lparr>in_queue := in_queue f @ [pkt]\<rparr>)))"

section \<open>Router\<close>

text \<open>
  \<open>cost_D\<close> is a list of rows \<open>[neighbor, interface, cost]\<close> and \<open>rt_tbl_D\<close> a list of rows
  \<open>[destination, router, cost]\<close>; the code reads both by position. Only the third field
  of a routing row is ever assigned, with an integer or the marker \<open>'~'\<close>.
\<close>

type_synonym cost_row = "string \<times> int \<times> int"
type_synonym route_row = "string \<times> string \<times> pyval"

record Router =
  name :: string
  stop :: bool
  intf_L :: "Interface list"
  cost_D :: "cost_row list"
  rt_tbl_D :: "route_row list"

definition neighbor :: "cost_row \<Rightarrow> string" where
  "neighbor x = fst x"

definition interface :: "cost_row \<Rightarrow> int" where
  "interface x = fst (snd x)"

definition cost :: "cost_row \<Rightarrow> int" where
  "cost x = snd (snd x)"

definition rt_dest :: "route_row \<Rightarrow> string" where
  "rt_dest x = fst x"

definition rt_owner :: "route_row \<Rightarrow> string" where
  "rt_owner x = fst (snd x)"

definition rt_cost :: "route_row \<Rightarrow> pyval" where
  "rt_cost x = snd (snd x)"

text \<open>The result of a method call on a router: it returns, it raises, or it waits in \<open>put\<close>.\<close>

datatype outcome = Done Router | Raised pyerror Router | Blocked Router

fun state_of :: "outcome \<Rightarrow> Router" where
  "state_of (Done r) = r"
| "state_of (Raised e r) = r"
| "state_of (Blocked r) = r"

text \<open>Python list indexing: a negative index counts from the end.\<close>

definition py_index :: "'a list \<Rightarrow> int \<Rightarrow> nat option" where
  "py_index xs i =
     (if 0 \<le> i \<and> i < int (length xs) then Some (nat i)
      else if i < 0 \<and> - int (length xs) \<le> i then Some (nat (int (length xs) + i))
      else None)"

text \<open>\<open>table[k][2] = v\<close> on a routing table; \<open>None\<close> stands for the \<open>IndexError\<close>.\<close>

definition set_cost :: "route_row list \<Rightarrow> nat \<Rightarrow> pyval \<Rightarrow> route_row list option" where
  "set_cost table k v =
     (if k < length table then Some (table[k := (rt_dest (table ! k), rt_owner (table ! k), v)])
      else None)"

subsection \<open>\<open>initTable\<close>\<close>

definition table0 :: "string \<Rightarrow> route_row list" where
  "table0 n = [(''H1'', n, PStr ''~''), (''H2'', n, PStr ''~''), (''RA'', n, PStr ''~''),
               (''RB'', n, PStr ''~''), (''RC'', n, PStr ''~''), (''RD'', n, PStr ''~''),
               (''H3'', n, PStr ''~'')]"

text \<open>One pass of the loop body of \<open>initTable\<close> for the cost row \<open>x\<close>.\<close>

definition initTable_step :: "cost_row \<Rightarrow> route_row list \<Rightarrow> route_row list" where
  "initTable_step x table =
     (let upd = (\<lambda>k. table[k := (rt_dest (table ! k), rt_owner (table ! k), PInt (cost x))]) in
      if neighbor x = ''H1'' then upd 0
      else if neighbor x = ''H2'' then upd 1
      else if neighbor x = ''RA'' then upd 2
      else if neighbor x = ''RB'' then upd 3
      else if neighbor x = ''RC'' then upd 4
      else if neighbor x = ''RD'' then upd 5
      else if neighbor x = ''H3'' then upd 6
      else table)"

definition initTable :: "string \<Rightarrow> cost_row list \<Rightarrow> route_row list" where
  "initTable n cd = fold initTable_step cd (table0 n)"

definition Router_init :: "string \<Rightarrow> cost_row list \<Rightarrow> int \<Rightarrow> Router" where
  "Router_init n cd max_queue_size =
     \<lparr>name = n, stop = False,
      intf_L = replicate (length cd) (Interface_init max_queue_size),
      cost_D = cd, rt_tbl_D = initTable n cd\<rparr>"

subsection \<open>\<open>forward_packet\<close>\<close>

text \<open>
  \<open>self.intf_L[j].put(p.to_byte_S(), 'out', True)\<close>: the interface is looked up first, then
  the packet is encoded, then the blocking put runs.
\<close>

definition put_out :: "Router \<Rightarrow> int \<Rightarrow> NetworkPacket \<Rightarrow> outcome" where
  "put_out r j p =
     (case py_index (intf_L r) j of
        None \<Rightarrow> Raised IndexError r
      | Some k \<Rightarrow>
          (case to_byte_S p of
             Inl e \<Rightarrow> Raised e r
           | Inr b \<Rightarrow>
               (case put (intf_L r ! k) b ''out'' True of
                  Put_ok f \<Rightarrow> Done (r\<lparr>intf_L := (intf_L r)[k := f]\<rparr>)
                | Put_full \<Rightarrow> Raised QueueFull r
                | Put_wait \<Rightarrow> Blocked r)))"

text \<open>\<open>except queue.Full: ... pass\<close>: the packet is reported lost and the call returns.\<close>

fun except_Full :: "outcome \<Rightarrow> outcome" where
  "except_Full (Raised e r) = (if e = QueueFull then Done r else Raised e r)"
| "except_Full out = out"

text \<open>
  The first loop of \<open>forward_packet\<close>: the first cost row whose neighbor equals the
  destination decides; \<open>None\<close> means the loop ended with \<open>sentFlag\<close> still false.
\<close>

fun forward_neighbor :: "Router \<Rightarrow> NetworkPacket \<Rightarrow> cost_row list \<Rightarrow> outcome option" where
  "forward_neighbor r p [] = None"
| "forward_neighbor r p (x # xs) =
     (if dst p = PStr (neighbor x) then Some (put_out r (interface x) p)
      else forward_neighbor r p xs)"

text \<open>\<open>min(costs)\<close>: \<open>ValueError\<close> on an empty list.\<close>

fun py_min :: "int list \<Rightarrow> int option" where
  "py_min [] = None"
| "py_min (c # cs) = Some (fold min cs c)"

text \<open>The second loop: the first cost row whose cost is \<open>minCost\<close>.\<close>

fun forward_min :: "Router \<Rightarrow> NetworkPacket \<Rightarrow> int \<Rightarrow> cost_row list \<Rightarrow> outcome" where
  "forward_min r p minCost [] = Done r"
| "forward_min r p minCost (z # zs) =
     (if cost z = minCost then put_out r (interface z) p else forward_min r p minCost zs)"

text \<open>
  The \<open>print\<close> that ends the \<open>try\<close> block formats the packet with \<open>%s\<close>, which calls
  \<open>__str__\<close>. The printed line is not part of the model; an exception of the formatting
  is.
\<close>

fun print_packet :: "NetworkPacket \<Rightarrow> outcome \<Rightarrow> outcome" where
  "print_packet p (Done r) =
     (case str_NetworkPacket p of Inl e \<Rightarrow> Raised e r | Inr s \<Rightarrow> Done r)"
| "print_packet p out = out"

definition forward_packet :: "Router \<Rightarrow> NetworkPacket \<Rightarrow> int \<Rightarrow> outcome" where
  "forward_packet r p i =
     except_Full
       (print_packet p
          (case forward_neighbor r p (cost_D r) of
             Some out \<Rightarrow> out
           | None \<Rightarrow>
               (case py_min (map cost (cost_D r)) of
                  None \<Rightarrow> Raised ValueError r
                | Some minCost \<Rightarrow> forward_min r p minCost (cost_D r))))"

subsection \<open>\<open>send_routes\<close>\<close>

text \<open>
  \<open>repr\<close> of a string: single quotes unless the string holds a single quote and no double
  quote; the quote and the backslash are escaped, tab, newline and carriage return are
  written \<open>\t\<close>, \<open>\n\<close>, \<open>\r\<close>, and any other unprintable character as \<open>\xhh\<close>.
\<close>

definition hex_char :: "nat \<Rightarrow> char" where
  "hex_char d = ''0123456789abcdef'' ! d"

definition printable :: "char \<Rightarrow> bool" where
  "printable c \<longleftrightarrow>
     (let n = (of_char c :: nat) in (32 \<le> n \<and> n < 127) \<or> (161 \<le> n \<and> n \<noteq> 173))"

definition repr_char :: "char \<Rightarrow> char \<Rightarrow> string" where
  "repr_char quote c =
     (if c = quote \<or> c = CHR 0x5C then [CHR 0x5C, c]
      else if c = CHR 0x09 then [CHR 0x5C, CHR ''t'']
      else if c = CHR 0x0A then [CHR 0x5C, CHR ''n'']
      else if c = CHR 0x0D then [CHR 0x5C, CHR ''r'']
      else if printable c then [c]
      else [CHR 0x5C, CHR ''x'', hex_char ((of_char c :: nat) div 16),
            hex_char ((of_char c :: nat) mod 16)])"

definition repr_str :: "string \<Rightarrow> string" where
  "repr_str s =
     (let quote = (if CHR 0x27 \<in> set s \<and> CHR 0x22 \<notin> set s then CHR 0x22 else CHR 0x27)
      in quote # concat (map (repr_char quote) s) @ [quote])"

fun py_repr :: "pyval \<Rightarrow> string" where
  "py_repr (PInt i) = str_int i"
| "py_repr (PStr s) = repr_str s"

text \<open>\<open>str(x)\<close> for a routing row \<open>x\<close>, a three-element list.\<close>

definition str_row :: "route_row \<Rightarrow> string" where
  "str_row x =
     ''['' @ repr_str (rt_dest x) @ '', '' @ repr_str (rt_owner x) @ '', '' @ py_repr (rt_cost x)
       @ '']''"

definition tempTable :: "route_row list \<Rightarrow> string" where
  "tempTable table = concat (map str_row table)"

definition send_routes :: "Router \<Rightarrow> int \<Rightarrow> outcome" where
  "send_routes r i =
     except_Full
       (put_out r i \<lparr>dst = PInt 0, prot_S = ''control'', data_S = tempTable (rt_tbl_D r)\<rparr>)"

subsection \<open>\<open>update_routes\<close>\<close>

text \<open>The three regular expressions, on strings of code points below 256.\<close>

definition is_digit :: "char \<Rightarrow> bool" where
  "is_digit c \<longleftrightarrow> c \<in> set ''0123456789''"

definition is_space :: "char \<Rightarrow> bool" where
  "is_space c \<longleftrightarrow>
     (let n = (of_char c :: nat) in (9 \<le> n \<and> n \<le> 13) \<or> (28 \<le> n \<and> n \<le> 32) \<or> n = 133 \<or> n = 160)"

text \<open>\<open>re.match(r"^\d{6}", s)\<close>: the matched text, or \<open>None\<close>.\<close>

definition re_match6 :: "string \<Rightarrow> string option" where
  "re_match6 s = (if 6 \<le> length s \<and> list_all is_digit (take 6 s) then Some (take 6 s) else None)"

definition is_bracket :: "char \<Rightarrow> bool" where
  "is_bracket c \<longleftrightarrow> c = CHR '']'' \<or> c = CHR '','' \<or> c = CHR 0x27 \<or> c = CHR ''[''"

text \<open>
  \<open>re.sub(r"^\d{6}|[\]\,\'\[]", ' ', s)\<close>: six leading digits become one blank, and every
  bracket, comma and single quote becomes a blank.
\<close>

definition re_sub :: "string \<Rightarrow> string" where
  "re_sub s =
     (let blank = map (\<lambda>c. if is_bracket c then CHR '' '' else c) in
      case re_match6 s of
        Some m \<Rightarrow> CHR '' '' # blank (drop 6 s)
      | None \<Rightarrow> blank s)"

text \<open>
  \<open>re.split(r'\s+', s)\<close>: the pieces between maximal runs of white space, with an empty
  piece at either end where the string starts or ends with white space. The flag says
  that the previous character was white space, \<open>cur\<close> is the current piece, reversed.
\<close>

fun split_go :: "bool \<Rightarrow> string \<Rightarrow> string \<Rightarrow> string list" where
  "split_go ws cur [] = [rev cur]"
| "split_go ws cur (c # cs) =
     (if is_space c then (if ws then split_go True cur cs else rev cur # split_go True [] cs)
      else split_go False (c # cur) cs)"

definition re_split :: "string \<Rightarrow> string list" where
  "re_split s = split_go False [] s"

text \<open>
  \<open>del(new_list[0]); t = len(new_list); del(new_list[t-1])\<close>: on a one-element list the
  second \<open>del\<close> has index \<open>-1\<close> on an empty list and raises \<open>IndexError\<close>.
\<close>

definition del_ends :: "'a list \<Rightarrow> 'a list option" where
  "del_ends xs =
     (case xs of [] \<Rightarrow> None | _ # ys \<Rightarrow> (if ys = [] then None else Some (butlast ys)))"

text \<open>\<open>[new_list[n:n+3] for n in range(0, len(new_list), 3)]\<close>\<close>

fun chunks3 :: "'a list \<Rightarrow> 'a list list" where
  "chunks3 (a # b # c # xs) = [a, b, c] # chunks3 xs"
| "chunks3 [] = []"
| "chunks3 xs = [xs]"

text \<open>\<open>temp_l[x][2] = v\<close>; \<open>None\<close> stands for the \<open>IndexError\<close>.\<close>

definition set_field2 :: "pyval list list \<Rightarrow> nat \<Rightarrow> pyval \<Rightarrow> pyval list list option" where
  "set_field2 t x v =
     (if x < length t \<and> 2 < length (t ! x) then Some (t[x := (t ! x)[2 := v]]) else None)"

text \<open>
  The \<open>elif\<close> chain of the loop body, in the order of the source: the first pair of
  (destination, router) names that matches gives the cost.
\<close>

definition fixed_costs :: "((string \<times> string) \<times> int) list" where
  "fixed_costs =
     [((''H1'', ''RA''), 1), ((''RA'', ''RB''), 1), ((''RB'', ''H2''), 3), ((''H1'', ''RB''), 2),
      ((''RA'', ''H2''), 4), ((''H1'', ''H2''), 5), ((''RB'', ''H1''), 2), ((''RB'', ''RA''), 1),
      ((''H2'', ''RB''), 3), ((''RB'', ''H1''), 2), ((''H2'', ''RA''), 4), ((''H2'', ''H1''), 5),
      ((''H1'', ''RB''), 2)]"

definition fixed_cost :: "route_row \<Rightarrow> int option" where
  "fixed_cost x = map_of fixed_costs (rt_dest x, rt_owner x)"

text \<open>
  The loop \<open>for x in range(len(temp_l))\<close>. The routing table is assigned in place, so the
  table built so far is returned together with an error.
\<close>

fun route_loop ::
  "nat list \<Rightarrow> pyval list list \<Rightarrow> route_row list \<Rightarrow> pyerror option \<times> route_row list" where
  "route_loop [] t table = (None, table)"
| "route_loop (x # xs) t table =
     (if length table \<le> x then (Some IndexError, table)
      else (case fixed_cost (table ! x) of
              None \<Rightarrow> route_loop xs t table
            | Some v \<Rightarrow>
                (case set_field2 t x (PInt v) of
                   None \<Rightarrow> (Some IndexError, table)
                 | Some t' \<Rightarrow>
                     route_loop xs t'
                       (table[x := (rt_dest (table ! x), rt_owner (table ! x), PInt v)]))))"

text \<open>The fields of the advertisement: \<open>new_list\<close> after the two deletions.\<close>

definition new_list :: "string \<Rightarrow> string list option" where
  "new_list s = del_ends (re_split (re_sub s))"

definition update_routes :: "Router \<Rightarrow> NetworkPacket \<Rightarrow> int \<Rightarrow> outcome" where
  "update_routes r p i =
     (case str_NetworkPacket p of
        Inl e \<Rightarrow> Raised e r
      | Inr s \<Rightarrow>
     (case new_list s of
        None \<Rightarrow> Raised IndexError r
      | Some nl \<Rightarrow>
     (case set_field2 (chunks3 (map PStr nl)) 1 (PInt 0) of
        None \<Rightarrow> Raised IndexError r
      | Some t1 \<Rightarrow>
     (case set_field2 t1 2 (PInt 0) of
        None \<Rightarrow> Raised IndexError r
      | Some temp_l \<Rightarrow>
     (case set_cost (rt_tbl_D r) 2 (PInt 0) of
        None \<Rightarrow> Raised IndexError r
      | Some table2 \<Rightarrow>
     (case set_cost table2 1 (PInt 0) of
        None \<Rightarrow> Raised IndexError (r\<lparr>rt_tbl_D := table2\<rparr>)
      | Some table1 \<Rightarrow>
     (case route_loop [0..<length temp_l] temp_l table1 of
        (Some e, table) \<Rightarrow> Raised e (r\<lparr>rt_tbl_D := table\<rparr>)
      | (None, table) \<Rightarrow>
     (case re_match6 s of
        None \<Rightarrow> Raised AttributeError (r\<lparr>rt_tbl_D := table\<rparr>)
      | Some packet_beginning \<Rightarrow> send_routes (r\<lparr>rt_tbl_D := table\<rparr>) 0))))))))"

subsection \<open>\<open>process_queues\<close> and \<open>run\<close>\<close>

text \<open>
  The loop \<open>for i in range(len(self.intf_L))\<close>. Nothing in it catches an exception of
  \<open>from_byte_S\<close>, \<open>forward_packet\<close> or \<open>update_routes\<close>. The message of the
  \<open>Exception\<close> in the last branch is formatted from the packet before the \<open>raise\<close>.
\<close>

fun process_loop :: "nat list \<Rightarrow> Router \<Rightarrow> outcome" where
  "process_loop [] r = Done r"
| "process_loop (i # is) r =
     (case get (intf_L r ! i) ''in'' of
        (None, f) \<Rightarrow> process_loop is r
      | (Some pkt_S, f) \<Rightarrow>
          (let r1 = r\<lparr>intf_L := (intf_L r)[i := f]\<rparr> in
           case from_byte_S pkt_S of
             Inl e \<Rightarrow> Raised e r1
           | Inr p \<Rightarrow>
               (case (if prot_S p = ''data'' then forward_packet r1 p (int i)
                      else if prot_S p = ''control'' then update_routes r1 p (int i)
                      else (case str_NetworkPacket p of
                              Inl e \<Rightarrow> Raised e r1
                            | Inr s \<Rightarrow> Raised PyException r1)) of
                  Done r2 \<Rightarrow> process_loop is r2
                | out \<Rightarrow> out)))"

definition process_queues :: "Router \<Rightarrow> outcome" where
  "process_queues r = process_loop [0..<length (intf_L r)] r"

text \<open>
  \<open>run\<close>: the thread's loop, as far as this thread alone decides it. It returns when a
  cycle ends with \<open>stop\<close> set, it ends with the exception of a cycle that raises, and it
  has no result while neither happens.
\<close>

partial_function (option) run :: "Router \<Rightarrow> outcome option" where
  "run r =
     (case process_queues r of
        Done r' \<Rightarrow> (if stop r' then Some (Done r') else run r')
      | Raised e r' \<Rightarrow> Some (Raised e r')
      | Blocked r' \<Rightarrow> Some (Blocked r'))"

subsection \<open>Observing an outcome\<close>

fun returned :: "outcome \<Rightarrow> bool" where
  "returned (Done r) = True"
| "returned out = False"

fun raised :: "outcome \<Rightarrow> pyerror option" where
  "raised (Raised e r) = Some e"
| "raised out = None"

section \<open>Example configurations\<close>

text \<open>
  Two routers with two neighbours each and unbounded queues, and the control packet that
  \<open>ex_RB\<close> decodes when \<open>ex_RA\<close> has advertised its initial table.
\<close>

definition ex_RA :: Router where
  "ex_RA = Router_init ''RA'' [(''H1'', 0, 1), (''RB'', 1, 1)] 0"

definition ex_RB :: Router where
  "ex_RB = Router_init ''RB'' [(''H2'', 0, 1), (''RA'', 1, 1)] 0"

definition ex_adv :: NetworkPacket where
  "ex_adv = \<lparr>dst = PStr [], prot_S = ''control'', data_S = tempTable (rt_tbl_D ex_RA)\<rparr>"

text \<open>
  A control packet of twenty-five words: \<open>update_routes\<close> drops the last one and reads
  twenty-four fields, one row more than a routing table has.
\<close>

definition ex_long :: NetworkPacket where
  "ex_long = \<lparr>dst = PStr [], prot_S = ''control'',
              data_S = ''a b c d e f g h i j k l m n o p q r s t u v w x y''\<rparr>"

text \<open>
  \<open>ex_RB\<close> with an undecodable packet waiting on interface 0 and a data packet for its
  neighbour \<open>H2\<close> waiting on interface 1.
\<close>

definition ex_poll :: Router where
  "ex_poll = ex_RB\<lparr>intf_L :=
     [\<lparr>in_queue = [''000009''], out_queue = [], maxsize = 0\<rparr>,
      \<lparr>in_queue = [''000H21hello''], out_queue = [], maxsize = 0\<rparr>]\<rparr>"



section \<open>The packet codec\<close>

lemma digit_char_zero: "d < 10 \<Longrightarrow> digit_char d = CHR ''0'' \<longleftrightarrow> d = 0"
proof -
  assume "d < 10"
  then consider "d = 0" | "d = 1" | "d = 2" | "d = 3" | "d = 4" | "d = 5" | "d = 6" | "d = 7"
    | "d = 8" | "d = 9" by atomize_elim arith
  then show ?thesis by cases (simp_all add: digit_char_def)
qed

lemma digit_char_not_sign: "d < 10 \<Longrightarrow> digit_char d \<noteq> CHR ''+'' \<and> digit_char d \<noteq> CHR ''-''"
proof -
  assume "d < 10"
  then consider "d = 0" | "d = 1" | "d = 2" | "d = 3" | "d = 4" | "d = 5" | "d = 6" | "d = 7"
    | "d = 8" | "d = 9" by atomize_elim arith
  then show ?thesis by cases (simp_all add: digit_char_def)
qed

lemma digits_nonempty: "digits n \<noteq> []"
  by (subst digits.simps) simp


lemma hd_digits_nonzero: "0 < n \<Longrightarrow> hd (digits n) \<noteq> CHR ''0''"
proof (induction n rule: digits.induct)
  case (1 n)
  show ?case
  proof (cases "n < 10")
    case True
    with "1.prems" show ?thesis by (subst digits.simps) (simp add: digit_char_zero)
  next
    case False
    then have "0 < n div 10" by simp
    with False "1.IH" have "hd (digits (n div 10)) \<noteq> CHR ''0''" by simp
    with False show ?thesis by (subst digits.simps) (simp add: digits_nonempty)
  qed
qed

lemma hd_digits_not_sign: "hd (digits n) \<noteq> CHR ''+'' \<and> hd (digits n) \<noteq> CHR ''-''"
proof (induction n rule: digits.induct)
  case (1 n)
  show ?case
  proof (cases "n < 10")
    case True
    then show ?thesis by (subst (1 2) digits.simps) (simp add: digit_char_not_sign)
  next
    case False
    with "1.IH" show ?thesis by (subst (1 2) digits.simps) (simp add: digits_nonempty)
  qed
qed

lemma last_digits: "last (digits n) = digit_char (n mod 10)"
  by (subst digits.simps) simp

lemma length_digits: "n < 10 ^ k \<Longrightarrow> 0 < k \<Longrightarrow> length (digits n) \<le> k"
proof (induction n arbitrary: k rule: digits.induct)
  case (1 n)
  show ?case
  proof (cases "n < 10")
    case True
    with "1.prems" show ?thesis by (subst digits.simps) simp
  next
    case False
    obtain j where k: "k = Suc j" using "1.prems"(2) by (cases k) auto
    with "1.prems"(1) have lt: "n div 10 < 10 ^ j"
      by (simp add: less_mult_imp_div_less mult.commute)
    from False lt have "0 < j" by (cases j) auto
    with "1.IH" [OF False lt] have "length (digits (n div 10)) \<le> j" by simp
    with False k show ?thesis by (subst digits.simps) simp
  qed
qed

lemma strip0_padded:
  assumes "s \<noteq> []" "hd s \<noteq> CHR ''0''" "last s \<noteq> CHR ''0''"
  shows "strip0 (replicate k CHR ''0'' @ s) = s"
proof -
  have a: "dropWhile (\<lambda>c. c = CHR ''0'') (replicate k CHR ''0'' @ s) = s"
    using assms(1,2) by (induction k) (auto simp: neq_Nil_conv)
  have b: "dropWhile (\<lambda>c. c = CHR ''0'') (rev s) = rev s"
    using assms(1,3) by (cases "rev s") (auto simp: last_rev hd_rev dest: arg_cong [where f = hd])
  show ?thesis by (simp add: strip0_def a b)
qed


lemma zfill_unsigned:
  assumes "s \<noteq> []" "hd s \<noteq> CHR ''+'' \<and> hd s \<noteq> CHR ''-''" "length s \<le> w"
  shows "zfill w s = replicate (w - length s) CHR ''0'' @ s"
  using assms by (cases s) (auto simp: zfill_def)

lemma decode_padded:
  assumes "length b = 5" "strip0 b = t"
  shows "from_byte_S (b @ ''1'' @ s) = Inr \<lparr>dst = PStr t, prot_S = ''data'', data_S = s\<rparr>"
    and "from_byte_S (b @ ''2'' @ s) = Inr \<lparr>dst = PStr t, prot_S = ''control'', data_S = s\<rparr>"
  using assms by (simp_all add: from_byte_S_def dst_S_length_def prot_S_length_def)

text \<open>
  Claim C1, as the code has it. For a packet whose destination is an integer \<open>d\<close> with
  \<open>0 < d < 100000\<close> and last decimal digit not \<open>0\<close>, and whose protocol is \<open>'data'\<close> or
  \<open>'control'\<close>, decoding the encoding returns the same protocol and payload, and as
  destination the decimal text of \<open>d\<close>: a string, not the integer.
\<close>

theorem decode_encode_int_dst:
  assumes "0 < d" "d < 100000" "d mod 10 \<noteq> 0" "pr = ''data'' \<or> pr = ''control''"
  shows "decode_encode \<lparr>dst = PInt d, prot_S = pr, data_S = s\<rparr>
           = Inr \<lparr>dst = PStr (str_int d), prot_S = pr, data_S = s\<rparr>"
proof -
  define n where "n = nat d"
  define b where "b = zfill 5 (digits n)"
  have "n mod 10 = nat (d mod 10)"
    using assms(1) by (simp add: n_def nat_mod_distrib)
  moreover have "0 < d mod 10"
    using assms(3) by (simp add: less_le)
  ultimately have n: "0 < n" "n < 10 ^ 5" "n mod 10 \<noteq> 0"
    using assms(1,2) by (simp_all add: n_def nat_less_iff)
  have str: "str_int d = digits n"
    using assms(1) by (simp add: str_int_def n_def)
  have len: "length (digits n) \<le> 5"
    using n(2) by (rule length_digits) simp
  have "n mod 10 < 10" by simp
  with n(3) have last: "last (digits n) \<noteq> CHR ''0''"
    by (simp add: last_digits digit_char_zero)
  have b_eq: "b = replicate (5 - length (digits n)) CHR ''0'' @ digits n"
    unfolding b_def using digits_nonempty hd_digits_not_sign len by (rule zfill_unsigned)
  have blen: "length b = 5"
    using len by (simp add: b_eq)
  have strip: "strip0 b = digits n"
    unfolding b_eq using digits_nonempty hd_digits_nonzero [OF n(1)] last by (rule strip0_padded)
  from assms(4) show ?thesis
  proof
    assume "pr = ''data''"
    then show ?thesis
      using decode_padded(1) [OF blen strip]
      by (simp add: decode_encode_def to_byte_S_def dst_S_length_def str b_def)
  next
    assume "pr = ''control''"
    then show ?thesis
      using decode_padded(2) [OF blen strip]
      by (simp add: decode_encode_def to_byte_S_def dst_S_length_def str b_def)
  qed
qed

lemma digits_eval: "digits 7 = ''7''" "digits 10 = ''10''" "digits 123 = ''123''"
  by (simp_all add: digits.simps digit_char_def)

theorem decode_encode_int_dst_witness:
  "(0::int) < 123 \<and> (123::int) < 100000 \<and> (123::int) mod 10 \<noteq> 0
   \<and> decode_encode \<lparr>dst = PInt 123, prot_S = ''data'', data_S = ''hello''\<rparr>
       = Inr \<lparr>dst = PStr ''123'', prot_S = ''data'', data_S = ''hello''\<rparr>"
  using decode_encode_int_dst [of 123 "''data''" "''hello''"]
  by (simp add: str_int_def digits_eval)

text \<open>
  Claim C1 as stated fails: destination \<open>10\<close> is sent as \<open>00010\<close> and decoded as the
  string \<open>'1'\<close>, because \<open>strip('0')\<close> also removes the zero at the right end.
\<close>

theorem decode_encode_counterexample:
  "decode_encode \<lparr>dst = PInt 10, prot_S = ''data'', data_S = ''hello''\<rparr>
     = Inr \<lparr>dst = PStr ''1'', prot_S = ''data'', data_S = ''hello''\<rparr>
   \<and> decode_encode \<lparr>dst = PInt 10, prot_S = ''data'', data_S = ''hello''\<rparr>
     \<noteq> Inr \<lparr>dst = PInt 10, prot_S = ''data'', data_S = ''hello''\<rparr>"
  by code_simp

subsection \<open>Decoding errors\<close>

lemma take1_drop5: "take (Suc 0) (drop 5 b) = (if 5 < length b then [b ! 5] else [])"
proof (cases "5 < length b")
  case True
  then have "drop 5 b = b ! 5 # drop 6 b"
    using Cons_nth_drop_Suc [of 5 b] by simp
  with True show ?thesis by simp
next
  case False
  then show ?thesis by simp
qed

text \<open>
  Claim C9, as the code has it. \<open>from_byte_S\<close> fails exactly when the input is shorter
  than six characters or its sixth character is neither \<open>1\<close> nor \<open>2\<close>, and in both cases
  with the one error of its last branch: there is no separate error for a short input.
\<close>

theorem from_byte_S_fails:
  "from_byte_S b = Inl TypeError
     \<longleftrightarrow> length b < 6 \<or> (b ! 5 \<noteq> CHR ''1'' \<and> b ! 5 \<noteq> CHR ''2'')"
  by (auto simp: from_byte_S_def dst_S_length_def prot_S_length_def take1_drop5 Let_def)

theorem from_byte_S_fails_witness:
  "from_byte_S ''0001'' = Inl TypeError \<and> from_byte_S ''00000x'' = Inl TypeError"
  using from_byte_S_fails [of "''0001''"] from_byte_S_fails [of "''00000x''"] by simp

text \<open>
  Claim C9 as stated fails: a four-character input ends in the same error as a
  six-character input with protocol digit \<open>9\<close>.
\<close>

theorem from_byte_S_same_error:
  "from_byte_S ''0001'' = Inl TypeError \<and> from_byte_S ''000009'' = Inl TypeError"
  by code_simp

section \<open>Forwarding\<close>








lemma print_packet_ok: "to_byte_S p = Inr b \<Longrightarrow> print_packet p out = out"
  by (cases out) (simp_all add: str_NetworkPacket_def)







section \<open>The routing table\<close>

lemma rt_fields [simp]:
  "rt_dest (d, ow, c) = d" "rt_owner (d, ow, c) = ow" "rt_cost (d, ow, c) = c"
  by (simp_all add: rt_dest_def rt_owner_def rt_cost_def)

lemma map_update_same: "(map f xs)[k := f (xs ! k)] = map f xs"
  by (cases "k < length xs") (simp_all add: list_update_same_conv list_update_beyond)

lemma map_rt_dest_update:
  "map rt_dest (table[k := (rt_dest (table ! k), ow, c)]) = map rt_dest table"
  by (simp add: map_update map_update_same)

lemma map_rt_owner_update:
  "map rt_owner (table[k := (d, rt_owner (table ! k), c)]) = map rt_owner table"
  by (simp add: map_update map_update_same)

lemma set_cost_names:
  assumes "set_cost table k v = Some table'"
  shows "map rt_dest table' = map rt_dest table" and "map rt_owner table' = map rt_owner table"
  using assms by (auto simp: set_cost_def map_rt_dest_update map_rt_owner_update split: if_splits)

lemma route_loop_names:
  "map rt_dest (snd (route_loop xs t table)) = map rt_dest table
   \<and> map rt_owner (snd (route_loop xs t table)) = map rt_owner table"
proof (induction xs arbitrary: t table)
  case Nil
  show ?case by simp
next
  case (Cons x xs)
  show ?case
    by (simp add: Cons.IH map_rt_dest_update map_rt_owner_update split: option.splits)
qed

lemma put_out_rt_tbl: "rt_tbl_D (state_of (put_out r j p)) = rt_tbl_D r"
  by (simp add: put_out_def split: option.splits sum.splits put_result.splits)

lemma state_of_except_Full: "state_of (except_Full out) = state_of out"
  by (cases out) simp_all

lemma send_routes_rt_tbl: "rt_tbl_D (state_of (send_routes r i)) = rt_tbl_D r"
  by (simp add: send_routes_def state_of_except_Full put_out_rt_tbl)

lemma initTable_step_dest: "map rt_dest (initTable_step x table) = map rt_dest table"
  by (simp add: initTable_step_def map_rt_dest_update)

lemma fold_initTable_step_dest:
  "map rt_dest (fold initTable_step cd table) = map rt_dest table"
  by (induction cd arbitrary: table) (simp_all add: initTable_step_dest)

lemma update_routes_names:
  "map rt_dest (rt_tbl_D (state_of (update_routes r p i))) = map rt_dest (rt_tbl_D r)
   \<and> map rt_owner (rt_tbl_D (state_of (update_routes r p i))) = map rt_owner (rt_tbl_D r)"
proof -
  have loop: "map rt_dest table' = map rt_dest table" "map rt_owner table' = map rt_owner table"
    if "route_loop xs t table = (e, table')" for xs t table e table'
    using route_loop_names [of xs t table] that by simp_all
  show ?thesis
    unfolding update_routes_def str_NetworkPacket_def
    by (auto simp: send_routes_rt_tbl set_cost_names loop
        split: sum.splits option.splits prod.splits)
qed

text \<open>
  Claim C10. Whatever cost table is passed, a constructed router has the seven rows
  \<open>H1, H2, RA, RB, RC, RD, H3\<close> in this order, and \<open>update_routes\<close>, however it ends,
  leaves the destination and router fields of every row as they were: it adds, removes
  and reorders nothing and assigns cost fields only.
\<close>

theorem rt_tbl_D_rows:
  "map rt_dest (rt_tbl_D (Router_init n cd m)) = [''H1'', ''H2'', ''RA'', ''RB'', ''RC'', ''RD'', ''H3'']
   \<and> map rt_dest (rt_tbl_D (state_of (update_routes r p i))) = map rt_dest (rt_tbl_D r)
   \<and> map rt_owner (rt_tbl_D (state_of (update_routes r p i))) = map rt_owner (rt_tbl_D r)"
  using update_routes_names [of r p i]
  by (simp add: Router_init_def initTable_def fold_initTable_step_dest table0_def)

lemma fixed_cost_update:
  "fixed_cost (rt_dest (table ! k), rt_owner (table ! k), c) = fixed_cost (table ! k)"
  by (simp add: fixed_cost_def)

lemma route_loop_cost:
  assumes "route_loop xs t table = (None, table')" "distinct xs" "x < length table"
  shows "rt_cost (table' ! x) =
           (case fixed_cost (table ! x) of
              Some v \<Rightarrow> if x \<in> set xs then PInt v else rt_cost (table ! x)
            | None \<Rightarrow> rt_cost (table ! x))"
  using assms
proof (induction xs arbitrary: t table)
  case Nil
  then show ?case by (simp split: option.splits)
next
  case (Cons y ys)
  from Cons.prems(1) have y: "y < length table"
    by (simp split: if_splits)
  show ?case
  proof (cases "fixed_cost (table ! y)")
    case None
    with Cons.prems y have "route_loop ys t table = (None, table')" by simp
    from Cons.IH [OF this] Cons.prems None show ?thesis
      by (auto split: option.splits)
  next
    case (Some v)
    let ?T = "table[y := (rt_dest (table ! y), rt_owner (table ! y), PInt v)]"
    from Cons.prems(1) y Some obtain t' where "route_loop ys t' ?T = (None, table')"
      by (auto split: option.splits)
    from Cons.IH [OF this] Cons.prems(2,3)
    have IH: "rt_cost (table' ! x) =
           (case fixed_cost (?T ! x) of
              Some v \<Rightarrow> if x \<in> set ys then PInt v else rt_cost (?T ! x)
            | None \<Rightarrow> rt_cost (?T ! x))" by simp
    have fc: "fixed_cost (?T ! x) = fixed_cost (table ! x)"
      using y by (cases "x = y") (simp_all add: fixed_cost_update)
    show ?thesis
    proof (cases "x = y")
      case True
      with IH fc Some y Cons.prems(2) show ?thesis by simp
    next
      case False
      with IH fc show ?thesis by (simp split: option.splits)
    qed
  qed
qed

lemma length_chunks3: "length (chunks3 xs) = (length xs + 2) div 3"
  by (induction xs rule: chunks3.induct) simp_all

lemma set_field2_length: "set_field2 t x v = Some t' \<Longrightarrow> length t' = length t"
  by (auto simp: set_field2_def split: if_splits)

lemma put_out_Done:
  assumes "put_out r j p = Done r'"
  shows "\<exists>k b. py_index (intf_L r) j = Some k \<and> to_byte_S p = Inr b
           \<and> r' = r\<lparr>intf_L := (intf_L r)
                   [k := (intf_L r ! k)\<lparr>out_queue := out_queue (intf_L r ! k) @ [b]\<rparr>]\<rparr>"
  using assms
  by (auto simp: put_out_def put_def split: option.splits sum.splits put_result.splits if_splits)

lemma to_byte_S_error: "to_byte_S p = Inl e \<Longrightarrow> e = RecursionError"
  by (auto simp: to_byte_S_def Let_def split: if_splits)

lemma put_out_not_Full: "put_out r j p \<noteq> Raised QueueFull r'"
  by (auto simp: put_out_def put_def split: option.splits sum.splits put_result.splits if_splits
      dest: to_byte_S_error)

lemma except_Full_put_out: "except_Full (put_out r j p) = put_out r j p"
  by (cases "put_out r j p") (auto simp: put_out_not_Full)

lemma to_byte_S_control0:
  "to_byte_S \<lparr>dst = PInt 0, prot_S = ''control'', data_S = s\<rparr> = Inr (''000002'' @ s)"
proof -
  have "zfill dst_S_length (py_str (PInt 0)) = ''00000''" by code_simp
  then show ?thesis by (simp add: to_byte_S_def)
qed

lemma py_index_0: "py_index xs 0 = Some k \<longleftrightarrow> xs \<noteq> [] \<and> k = 0"
  by (auto simp: py_index_def)

lemma send_routes_0_Done:
  assumes "send_routes r 0 = Done r'"
  shows "intf_L r \<noteq> [] \<and> r' = r\<lparr>intf_L := (intf_L r)
           [0 := (intf_L r ! 0)\<lparr>out_queue := out_queue (intf_L r ! 0)
                                    @ [''000002'' @ tempTable (rt_tbl_D r)]\<rparr>]\<rparr>"
proof -
  let ?p = "\<lparr>dst = PInt 0, prot_S = ''control'', data_S = tempTable (rt_tbl_D r)\<rparr>"
  from assms have "put_out r 0 ?p = Done r'"
    by (simp add: send_routes_def except_Full_put_out)
  from put_out_Done [OF this] show ?thesis
    by (auto simp: to_byte_S_control0 py_index_0)
qed

lemma update_routes_DoneE:
  assumes "update_routes r p i = Done r'"
  obtains s nl t1 temp_l table2 table1 table pb where
    "to_byte_S p = Inr s" "new_list s = Some nl"
    "set_field2 (chunks3 (map PStr nl)) 1 (PInt 0) = Some t1"
    "set_field2 t1 2 (PInt 0) = Some temp_l"
    "set_cost (rt_tbl_D r) 2 (PInt 0) = Some table2"
    "set_cost table2 1 (PInt 0) = Some table1"
    "route_loop [0..<length temp_l] temp_l table1 = (None, table)"
    "re_match6 s = Some pb"
    "send_routes (r\<lparr>rt_tbl_D := table\<rparr>) 0 = Done r'"
  using assms unfolding update_routes_def str_NetworkPacket_def
  by (auto split: sum.splits option.splits prod.splits)

text \<open>
  Claim C3, as the code has it. Whenever \<open>update_routes\<close> returns, it has called
  \<open>send_routes(0)\<close> once: the advertisement of the table it leaves is appended to the
  outbound queue of interface 0 and no other interface is touched, whichever interface
  the update arrived on and whether or not an entry changed.
\<close>

theorem update_routes_sends_on_0:
  assumes "update_routes r p i = Done r'"
  shows "intf_L r \<noteq> [] \<and> intf_L r' = (intf_L r)
           [0 := (intf_L r ! 0)\<lparr>out_queue := out_queue (intf_L r ! 0)
                                    @ [''000002'' @ tempTable (rt_tbl_D r')]\<rparr>]"
proof -
  from assms obtain table where "send_routes (r\<lparr>rt_tbl_D := table\<rparr>) 0 = Done r'"
    by (rule update_routes_DoneE)
  from send_routes_0_Done [OF this] show ?thesis by simp
qed

text \<open>
  Claim C2, as the code has it. \<open>update_routes\<close> compares no costs. When it returns, the
  cost of row \<open>x\<close> is the constant listed for the row's (destination, router) names if
  there is one and \<open>x\<close> is below the number of advertised rows; otherwise it is \<open>0\<close> for
  rows 1 and 2 and the stored cost for every other row.
\<close>

theorem update_routes_costs:
  assumes "update_routes r p i = Done r'" and "to_byte_S p = Inr s" and "new_list s = Some nl"
    and "x < length (rt_tbl_D r)"
  shows "rt_cost (rt_tbl_D r' ! x) =
           (let kept = (if x = 1 \<or> x = 2 then PInt 0 else rt_cost (rt_tbl_D r ! x)) in
            case fixed_cost (rt_tbl_D r ! x) of
              Some v \<Rightarrow> if 3 * x < length nl then PInt v else kept
            | None \<Rightarrow> kept)"
proof -
  from assms(1) obtain s' nl' t1 temp_l table2 table1 table where u:
    "to_byte_S p = Inr s'" "new_list s' = Some nl'"
    "set_field2 (chunks3 (map PStr nl')) 1 (PInt 0) = Some t1"
    "set_field2 t1 2 (PInt 0) = Some temp_l"
    "set_cost (rt_tbl_D r) 2 (PInt 0) = Some table2"
    "set_cost table2 1 (PInt 0) = Some table1"
    "route_loop [0..<length temp_l] temp_l table1 = (None, table)"
    "send_routes (r\<lparr>rt_tbl_D := table\<rparr>) 0 = Done r'"
    by (rule update_routes_DoneE)
  from u(1,2) assms(2,3) have nl: "nl' = nl" by simp
  have r': "rt_tbl_D r' = table"
    using send_routes_rt_tbl [of "r\<lparr>rt_tbl_D := table\<rparr>" 0] u(8) by simp
  have len: "length temp_l = (length nl + 2) div 3"
    using set_field2_length [OF u(3)] set_field2_length [OF u(4)]
    by (simp add: length_chunks3 nl)
  have t1: "table1 = (rt_tbl_D r)[2 := (rt_dest (rt_tbl_D r ! 2), rt_owner (rt_tbl_D r ! 2), PInt 0),
                                 1 := (rt_dest (rt_tbl_D r ! 1), rt_owner (rt_tbl_D r ! 1), PInt 0)]"
    using u(5,6) by (auto simp: set_cost_def split: if_splits)
  have x1: "x < length table1" using assms(4) by (simp add: t1)
  have fc: "fixed_cost (table1 ! x) = fixed_cost (rt_tbl_D r ! x)"
    using assms(4) by (cases "x = 1"; cases "x = 2") (simp_all add: t1 fixed_cost_def)
  have kept: "rt_cost (table1 ! x) = (if x = 1 \<or> x = 2 then PInt 0 else rt_cost (rt_tbl_D r ! x))"
    using assms(4) by (cases "x = 1"; cases "x = 2") (simp_all add: t1)
  have mem: "x \<in> set [0..<length temp_l] \<longleftrightarrow> 3 * x < length nl"
    by (simp add: len) arith
  have "rt_cost (table ! x) =
           (case fixed_cost (table1 ! x) of
              Some v \<Rightarrow> if x \<in> set [0..<length temp_l] then PInt v else rt_cost (table1 ! x)
            | None \<Rightarrow> rt_cost (table1 ! x))"
    using u(7) _ x1 by (rule route_loop_cost) simp
  then show ?thesis
    unfolding r' fc mem kept Let_def by (cases "fixed_cost (rt_tbl_D r ! x)") simp_all
qed

lemma returned_Done: "returned out \<Longrightarrow> out = Done (state_of out)"
  by (cases out) simp_all

text \<open>
  Claim C2 as stated fails: router \<open>RB\<close> stores cost \<open>1\<close> to its neighbour \<open>H2\<close>, and
  after the advertisement of \<open>RA\<close> it stores cost \<open>3\<close>.
\<close>

theorem update_routes_raises_cost:
  "returned (update_routes ex_RB ex_adv 1)
   \<and> rt_tbl_D ex_RB ! 1 = (''H2'', ''RB'', PInt 1)
   \<and> rt_tbl_D (state_of (update_routes ex_RB ex_adv 1)) ! 1 = (''H2'', ''RB'', PInt 3)"
  by code_simp

text \<open>
  Claim C3 as stated fails: the update changes the table of \<open>RB\<close>, which has two
  interfaces, and nothing is sent on interface 1.
\<close>

theorem update_routes_one_interface:
  "returned (update_routes ex_RB ex_adv 1)
   \<and> rt_tbl_D (state_of (update_routes ex_RB ex_adv 1)) \<noteq> rt_tbl_D ex_RB
   \<and> length (intf_L ex_RB) = 2
   \<and> out_queue (intf_L (state_of (update_routes ex_RB ex_adv 1)) ! 1) = []"
  by code_simp

text \<open>
  Claim C8 as stated fails: an advertisement of eight rows ends in \<open>IndexError\<close> at the
  eighth row, after the costs of the first rows have been assigned.
\<close>

theorem update_routes_error_changes_table:
  "raised (update_routes ex_RB ex_long 0) = Some IndexError
   \<and> rt_tbl_D (state_of (update_routes ex_RB ex_long 0)) \<noteq> rt_tbl_D ex_RB"
  by code_simp

lemma chunks3_row:
  "x < length (chunks3 xs) \<and> 2 < length (chunks3 xs ! x) \<longleftrightarrow> 3 * x + 3 \<le> length xs"
proof (induction xs arbitrary: x rule: chunks3.induct)
  case (1 a b c xs)
  show ?case
  proof (cases x)
    case 0
    then show ?thesis by simp
  next
    case (Suc y)
    with "1.IH" [of y] show ?thesis by (simp add: add.commute)
  qed
qed (auto simp: less_Suc_eq_0_disj)

lemma set_field2_other:
  assumes "set_field2 t x v = Some t'" "y \<noteq> x"
  shows "t' ! y = t ! y"
  using assms by (auto simp: set_field2_def split: if_splits)

text \<open>
  Claim C8, as the code has it. When the payload has fewer than nine fields, that is
  fewer than three complete rows, \<open>update_routes\<close> raises \<open>IndexError\<close> to its caller
  and the router is exactly as before the call.
\<close>

theorem update_routes_short_payload:
  assumes "to_byte_S p = Inr s" and "\<forall>nl. new_list s = Some nl \<longrightarrow> length nl < 9"
  shows "update_routes r p i = Raised IndexError r"
proof (cases "new_list s")
  case None
  with assms(1) show ?thesis by (simp add: update_routes_def str_NetworkPacket_def)
next
  case (Some nl)
  with assms(2) have short: "length nl < 9" by simp
  let ?t = "chunks3 (map PStr nl)"
  show ?thesis
  proof (cases "set_field2 ?t 1 (PInt 0)")
    case None
    with assms(1) Some show ?thesis by (simp add: update_routes_def str_NetworkPacket_def)
  next
    case (Some t1)
    have "\<not> (2 < length ?t \<and> 2 < length (?t ! 2))"
      using short chunks3_row [of 2 "map PStr nl"] by simp
    moreover have "length t1 = length ?t" "t1 ! 2 = ?t ! 2"
      using set_field2_length [OF Some] set_field2_other [OF Some, of 2] by simp_all
    ultimately have "set_field2 t1 2 (PInt 0) = None"
      by (simp add: set_field2_def)
    with assms(1) \<open>new_list s = Some nl\<close> Some show ?thesis
      by (simp add: update_routes_def str_NetworkPacket_def)
  qed
qed

theorem update_routes_short_payload_witness:
  "update_routes ex_RB \<lparr>dst = PStr [], prot_S = ''control'', data_S = ''no table here''\<rparr> 0
     = Raised IndexError ex_RB"
proof -
  let ?p = "\<lparr>dst = PStr [], prot_S = ''control'', data_S = ''no table here''\<rparr>"
  have h1: "to_byte_S ?p = Inr ''000002no table here''" by code_simp
  have "new_list ''000002no table here'' = Some [''no'', ''table'']" by code_simp
  then have h2: "\<forall>nl. new_list ''000002no table here'' = Some nl \<longrightarrow> length nl < 9"
    by simp
  show ?thesis
    using update_routes_short_payload [OF h1 h2] .
qed

theorem update_routes_sends_on_0_witness:
  "intf_L ex_RB \<noteq> []
   \<and> intf_L (state_of (update_routes ex_RB ex_adv 1)) = (intf_L ex_RB)
        [0 := (intf_L ex_RB ! 0)\<lparr>out_queue := out_queue (intf_L ex_RB ! 0)
           @ [''000002'' @ tempTable (rt_tbl_D (state_of (update_routes ex_RB ex_adv 1)))]\<rparr>]"
proof -
  have "returned (update_routes ex_RB ex_adv 1)" by code_simp
  then have h: "update_routes ex_RB ex_adv 1 = Done (state_of (update_routes ex_RB ex_adv 1))"
    by (rule returned_Done)
  show ?thesis
    using update_routes_sends_on_0 [OF h] .
qed

theorem update_routes_costs_witness:
  "rt_cost (rt_tbl_D ex_RB ! 1) = PInt 1
   \<and> rt_cost (rt_tbl_D (state_of (update_routes ex_RB ex_adv 1)) ! 1) = PInt 3"
proof -
  let ?s = "''000002'' @ tempTable (rt_tbl_D ex_RA)"
  let ?nl = "[''H1'', ''RA'', ''1'', ''H2'', ''RA'', ''~'', ''RA'', ''RA'', ''~'',
              ''RB'', ''RA'', ''1'', ''RC'', ''RA'', ''~'', ''RD'', ''RA'', ''~'',
              ''H3'', ''RA'', ''~'']"
  have "returned (update_routes ex_RB ex_adv 1)" by code_simp
  then have h1: "update_routes ex_RB ex_adv 1 = Done (state_of (update_routes ex_RB ex_adv 1))"
    by (rule returned_Done)
  have h2: "to_byte_S ex_adv = Inr ?s" by code_simp
  have h3: "new_list ?s = Some ?nl" by code_simp
  have h4: "1 < length (rt_tbl_D ex_RB)" by code_simp
  have old: "rt_cost (rt_tbl_D ex_RB ! 1) = PInt 1" by code_simp
  have fc: "fixed_cost (rt_tbl_D ex_RB ! 1) = Some 3" by code_simp
  show ?thesis
    using update_routes_costs [OF h1 h2 h3 h4] old fc by simp
qed

section \<open>Names in the routing table\<close>

lemma find_snoc:
  "find P (xs @ [x]) = (case find P xs of None \<Rightarrow> (if P x then Some x else None) | Some y \<Rightarrow> Some y)"
  by (induction xs) simp_all

lemma initTable_step_rows:
  "initTable_step x (map (\<lambda>d. (d, n, g d)) [''H1'', ''H2'', ''RA'', ''RB'', ''RC'', ''RD'', ''H3''])
     = map (\<lambda>d. (d, n, if neighbor x = d then PInt (cost x) else g d))
         [''H1'', ''H2'', ''RA'', ''RB'', ''RC'', ''RD'', ''H3'']"
  by (simp add: initTable_step_def)

lemma fold_initTable_step_rows:
  "fold initTable_step cd (map (\<lambda>d. (d, n, g d)) [''H1'', ''H2'', ''RA'', ''RB'', ''RC'', ''RD'', ''H3''])
     = map (\<lambda>d. (d, n, case find (\<lambda>x. neighbor x = d) (rev cd) of
                          None \<Rightarrow> g d | Some x \<Rightarrow> PInt (cost x)))
         [''H1'', ''H2'', ''RA'', ''RB'', ''RC'', ''RD'', ''H3'']"
proof (induction cd arbitrary: g)
  case Nil
  show ?case by simp
next
  case (Cons x cd)
  show ?case
    unfolding fold_Cons comp_apply initTable_step_rows Cons.IH
    by (simp add: find_snoc split: option.splits)
qed

lemma update_routes_table_only:
  assumes "rt_tbl_D r1 = rt_tbl_D r2"
  shows "rt_tbl_D (state_of (update_routes r1 p i)) = rt_tbl_D (state_of (update_routes r2 p j))"
  using assms unfolding update_routes_def str_NetworkPacket_def
  by (auto simp: send_routes_rt_tbl split: sum.splits option.splits prod.splits)

text \<open>
  Claim C4, as the code has it. \<open>initTable\<close> is written for seven fixed names: it builds
  the rows \<open>H1, H2, RA, RB, RC, RD, H3\<close>, each with the cost of the last cost row whose
  neighbour has that name and \<open>'~'\<close> if there is none, so a neighbour of any other name
  and every interface index are ignored. The routing table that \<open>update_routes\<close> leaves
  depends on the stored table and the packet only, not on the cost table, the
  interfaces, the router's name or the incoming interface.
\<close>

theorem table_names_fixed:
  "initTable n cd
     = map (\<lambda>d. (d, n, case find (\<lambda>x. neighbor x = d) (rev cd) of
                          None \<Rightarrow> PStr ''~'' | Some x \<Rightarrow> PInt (cost x)))
         [''H1'', ''H2'', ''RA'', ''RB'', ''RC'', ''RD'', ''H3'']
   \<and> rt_tbl_D (state_of (update_routes (r\<lparr>name := n, cost_D := cd, intf_L := fs\<rparr>) p j))
     = rt_tbl_D (state_of (update_routes r p i))"
proof
  have "table0 n = map (\<lambda>d. (d, n, PStr ''~'')) [''H1'', ''H2'', ''RA'', ''RB'', ''RC'', ''RD'', ''H3'']"
    by (simp add: table0_def)
  then show "initTable n cd
     = map (\<lambda>d. (d, n, case find (\<lambda>x. neighbor x = d) (rev cd) of
                          None \<Rightarrow> PStr ''~'' | Some x \<Rightarrow> PInt (cost x)))
         [''H1'', ''H2'', ''RA'', ''RB'', ''RC'', ''RD'', ''H3'']"
    unfolding initTable_def by (simp only: fold_initTable_step_rows)
  show "rt_tbl_D (state_of (update_routes (r\<lparr>name := n, cost_D := cd, intf_L := fs\<rparr>) p j))
     = rt_tbl_D (state_of (update_routes r p i))"
    by (rule update_routes_table_only) simp
qed

text \<open>
  Claim C4 as stated fails: a neighbour at cost 5 is recorded when it is named \<open>H1\<close> and
  is not recorded when it is named \<open>H9\<close>.
\<close>

theorem initTable_name_counterexample:
  "PInt 5 \<in> set (map rt_cost (initTable ''RA'' [(''H1'', 0, 5)]))
   \<and> PInt 5 \<notin> set (map rt_cost (initTable ''RA'' [(''H9'', 0, 5)]))"
  by code_simp

section \<open>The polling loop\<close>

lemma process_loop_skip:
  assumes "\<forall>j\<in>set pre. in_queue (intf_L r ! j) = []"
  shows "process_loop (pre @ rest) r = process_loop rest r"
  using assms by (induction pre) (simp_all add: get_def)

lemma process_loop_decode_error:
  assumes "in_queue (intf_L r ! k) = pkt # pkts" "from_byte_S pkt = Inl e"
  shows "process_loop (k # rest) r
           = Raised e (r\<lparr>intf_L := (intf_L r)[k := (intf_L r ! k)\<lparr>in_queue := pkts\<rparr>]\<rparr>)"
  using assms by (simp add: get_def)

lemma upt_split:
  assumes "k < n"
  shows "[0..<n] = [0..<k] @ k # [Suc k..<n]"
proof -
  obtain m where m: "n = k + m"
    using assms less_imp_add_positive by blast
  have "[0..<k + m] = [0..<k] @ [k..<k + m]"
    by (rule upt_add_eq_append) simp
  moreover have "[k..<k + m] = k # [Suc k..<k + m]"
    using assms m by (simp add: upt_conv_Cons)
  ultimately show ?thesis
    unfolding m by (rule trans [OF _ arg_cong])
qed

lemma run_Raised: "process_queues r = Raised e r' \<Longrightarrow> run r = Some (Raised e r')"
  by (subst run.simps) simp

text \<open>
  Claim C7, as the code has it. When the first interface with a waiting packet holds one
  that \<open>from_byte_S\<close> rejects, \<open>process_queues\<close> raises that error: the packet has been
  taken from its queue, every other interface is as before, so the later interfaces
  are not polled, and \<open>run\<close> ends with the same error, whether or not \<open>stop\<close> is set.
\<close>

theorem process_queues_raises:
  assumes "k < length (intf_L r)" and "\<forall>j<k. in_queue (intf_L r ! j) = []"
    and "in_queue (intf_L r ! k) = pkt # pkts" and "from_byte_S pkt = Inl e"
  shows "process_queues r
           = Raised e (r\<lparr>intf_L := (intf_L r)[k := (intf_L r ! k)\<lparr>in_queue := pkts\<rparr>]\<rparr>)
         \<and> run r
           = Some (Raised e (r\<lparr>intf_L := (intf_L r)[k := (intf_L r ! k)\<lparr>in_queue := pkts\<rparr>]\<rparr>))"
proof -
  have "\<forall>j\<in>set [0..<k]. in_queue (intf_L r ! j) = []"
    using assms(2) by simp
  then have "process_loop ([0..<k] @ k # [Suc k..<length (intf_L r)]) r
               = process_loop (k # [Suc k..<length (intf_L r)]) r"
    by (rule process_loop_skip)
  then have pq: "process_queues r
           = Raised e (r\<lparr>intf_L := (intf_L r)[k := (intf_L r ! k)\<lparr>in_queue := pkts\<rparr>]\<rparr>)"
    unfolding process_queues_def upt_split [OF assms(1)]
    by (simp only: process_loop_decode_error [OF assms(3,4)])
  from pq run_Raised [OF pq] show ?thesis ..
qed

lemma raised_Raised: "raised out = Some e \<Longrightarrow> out = Raised e (state_of out)"
  by (cases out) simp_all

text \<open>
  Claim C7 as stated fails: with an undecodable packet on interface 0, the poll cycle
  raises, the data packet on interface 1 stays in its queue and is not forwarded to
  interface 0, and \<open>run\<close> ends with the error although \<open>stop\<close> is not set.
\<close>

theorem process_queues_counterexample:
  "raised (process_queues ex_poll) = Some TypeError
   \<and> in_queue (intf_L (state_of (process_queues ex_poll)) ! 1) = [''000H21hello'']
   \<and> out_queue (intf_L (state_of (process_queues ex_poll)) ! 0) = []
   \<and> run ex_poll = Some (Raised TypeError (state_of (process_queues ex_poll)))"
proof -
  have a: "raised (process_queues ex_poll) = Some TypeError
   \<and> in_queue (intf_L (state_of (process_queues ex_poll)) ! 1) = [''000H21hello'']
   \<and> out_queue (intf_L (state_of (process_queues ex_poll)) ! 0) = []"
    by code_simp
  define st where "st = state_of (process_queues ex_poll)"
  from a have "raised (process_queues ex_poll) = Some TypeError" by simp
  then have "process_queues ex_poll = Raised TypeError st"
    unfolding st_def by (rule raised_Raised)
  then have "run ex_poll = Some (Raised TypeError st)"
    by (subst run.simps) simp
  with a show ?thesis by (simp add: st_def)
qed

theorem process_queues_raises_witness:
  "process_queues ex_poll
     = Raised TypeError (ex_poll\<lparr>intf_L := (intf_L ex_poll)[0 := (intf_L ex_poll ! 0)\<lparr>in_queue := []\<rparr>]\<rparr>)
   \<and> run ex_poll
     = Some (Raised TypeError
          (ex_poll\<lparr>intf_L := (intf_L ex_poll)[0 := (intf_L ex_poll ! 0)\<lparr>in_queue := []\<rparr>]\<rparr>))"
proof -
  have h1: "0 < length (intf_L ex_poll)" by (simp add: ex_poll_def)
  have h2: "\<forall>j<0. in_queue (intf_L ex_poll ! j) = []" by simp
  have h3: "in_queue (intf_L ex_poll ! 0) = ''000009'' # []" by (simp add: ex_poll_def)
  have h4: "from_byte_S ''000009'' = Inl TypeError" by code_simp
  show ?thesis
    using process_queues_raises [OF h1 h2 h3 h4] .
qed

end
